theory Spec2Isabelle
  imports Main "HOL-Library.Word"
begin

section \<open>Bytes, slices and the library calls of pysoxy.py\<close>

text \<open>
  A Python \<open>bytes\<close> object is a list of 8-bit words. A slice \<open>s[i:j]\<close> never raises: it
  is cut to the bytes that exist. An index \<open>s[i]\<close> raises IndexError out of range.
\<close>

type_synonym byte = "8 word"
type_synonym bytes = "byte list"

datatype exn = IndexError | StructError | OSError | TypeError | SystemExit

definition py_slice :: "nat \<Rightarrow> nat \<Rightarrow> bytes \<Rightarrow> bytes" where
  "py_slice i j s = take (j - i) (drop i s)"

definition byte_at :: "bytes \<Rightarrow> nat \<Rightarrow> exn + byte" where
  "byte_at s i = (if i < length s then Inr (s ! i) else Inl IndexError)"

text \<open>\<open>unpack('>H', b)[0]\<close>: exactly two bytes, big-endian, struct.error otherwise.\<close>

definition unpack_H :: "bytes \<Rightarrow> exn + nat" where
  "unpack_H b = (if length b = 2 then Inr (256 * unat (b ! 0) + unat (b ! 1))
                 else Inl StructError)"

text \<open>\<open>pack('>H', n)\<close> for a port number \<open>n < 65536\<close>.\<close>

definition pack_H :: "nat \<Rightarrow> bytes" where
  "pack_H n = [of_nat (n div 256), of_nat (n mod 256)]"

text \<open>
  The destination of a request is a dotted-quad string made by \<open>socket.inet_ntoa\<close> from
  four bytes, or the raw bytes of a domain name. The dotted string is kept as its four
  octets. \<open>inet_ntoa\<close> raises OSError unless it is given exactly four bytes.
\<close>

datatype host = Dotted bytes | Name bytes

definition inet_ntoa :: "bytes \<Rightarrow> exn + host" where
  "inet_ntoa b = (if length b = 4 then Inr (Dotted b) else Inl OSError)"

subsection \<open>Configuration and protocol constants\<close>

definition MAX_THREADS :: nat where "MAX_THREADS = 200"
definition BUFSIZE :: nat where "BUFSIZE = 2048"

definition VER :: bytes where "VER = [0x05]"
definition M_NOAUTH :: bytes where "M_NOAUTH = [0x00]"
definition M_NOTAVAILABLE :: bytes where "M_NOTAVAILABLE = [0xFF]"
definition CMD_CONNECT :: bytes where "CMD_CONNECT = [0x01]"
definition ATYP_IPV4 :: bytes where "ATYP_IPV4 = [0x01]"
definition ATYP_DOMAINNAME :: bytes where "ATYP_DOMAINNAME = [0x03]"

section \<open>The world a connection runs in\<close>

text \<open>
  The two sockets of a connection are \<open>Client\<close> (the accepted socket, \<open>wrapper\<close> in the
  source) and \<open>Dst\<close> (\<open>socket_dst\<close>). What the network does is scripted in the world:
  for each socket the results of its successive \<open>recv\<close> calls and of its successive
  \<open>send\<close>/\<open>sendall\<close> calls, the results of \<open>select\<close>, and the results of creating,
  binding and connecting the outbound socket. A \<open>recv\<close> result is the data read, a
  ConnectionResetError, or another socket.error. A write succeeds, is taken by the
  socket only in part (its first bytes), or raises socket.error. Every call leaves an
  event in the trace: \<open>Send\<close> holds the bytes handed to \<open>send\<close> or \<open>sendall\<close>, and
  \<open>Taken\<close> the count that a \<open>send\<close> returned.
\<close>

datatype sock = Client | Dst

datatype recv_res = Data bytes | ResetErr | SockErr
datatype send_res = SendOk | SendPart nat | SendErr
datatype sel_res = SelErr | Ready "sock list"
datatype bind_res = BindOk | BindPerm | BindErr
datatype conn_res = ConnOk bytes nat | ConnErr

datatype event =
    Recv sock recv_res
  | Send sock bytes
  | Taken sock nat
  | Close sock
  | Connect host nat bool
  | Sleep

record world =
  cin :: "recv_res list"
  din :: "recv_res list"
  cout :: "send_res list"
  dout :: "send_res list"
  sched :: "(bool \<times> sel_res) list"
  create_ok :: bool
  bind_r :: bind_res
  conn_r :: conn_res
  OUTGOING_INTERFACE :: string
  exit_status :: bool
  trace :: "event list"

definition log :: "event \<Rightarrow> world \<Rightarrow> world" where
  "log e w = w\<lparr>trace := trace w @ [e]\<rparr>"

definition closed :: "sock \<Rightarrow> world \<Rightarrow> bool" where
  "closed s w = (Close s \<in> set (trace w))"

definition inq :: "sock \<Rightarrow> world \<Rightarrow> recv_res list" where
  "inq s w = (case s of Client \<Rightarrow> cin w | Dst \<Rightarrow> din w)"

definition set_inq :: "sock \<Rightarrow> recv_res list \<Rightarrow> world \<Rightarrow> world" where
  "set_inq s q w = (case s of Client \<Rightarrow> w\<lparr>cin := q\<rparr> | Dst \<Rightarrow> w\<lparr>din := q\<rparr>)"

definition outq :: "sock \<Rightarrow> world \<Rightarrow> send_res list" where
  "outq s w = (case s of Client \<Rightarrow> cout w | Dst \<Rightarrow> dout w)"

definition set_outq :: "sock \<Rightarrow> send_res list \<Rightarrow> world \<Rightarrow> world" where
  "set_outq s q w = (case s of Client \<Rightarrow> w\<lparr>cout := q\<rparr> | Dst \<Rightarrow> w\<lparr>dout := q\<rparr>)"

text \<open>
  \<open>sock.recv(n)\<close>: on a closed socket it raises; otherwise it returns at most \<open>n\<close> bytes
  of what has arrived and leaves the rest for the next call. When the script of a socket
  is used up the peer has closed and every read is empty.
\<close>

definition recv :: "sock \<Rightarrow> nat \<Rightarrow> world \<Rightarrow> recv_res \<times> world" where
  "recv s n w =
     (if closed s w then (SockErr, log (Recv s SockErr) w)
      else case inq s w of
        [] \<Rightarrow> (Data [], log (Recv s (Data [])) w)
      | Data d # q \<Rightarrow>
          if n < length d
          then (Data (take n d), log (Recv s (Data (take n d))) (set_inq s (Data (drop n d) # q) w))
          else (Data d, log (Recv s (Data d)) (set_inq s q w))
      | r # q \<Rightarrow> (r, log (Recv s r) (set_inq s q w)))"

text \<open>
  \<open>sock.sendall(b)\<close> writes the whole buffer or raises: where the socket takes only a
  part, \<open>sendall\<close> goes on until all of it is written. On a closed socket it raises.
  Once the script is used up every write succeeds.
\<close>

definition sendall :: "sock \<Rightarrow> bytes \<Rightarrow> world \<Rightarrow> send_res \<times> world" where
  "sendall s b w =
     (if closed s w then (SendErr, log (Send s b) w)
      else case outq s w of
        [] \<Rightarrow> (SendOk, log (Send s b) w)
      | SendErr # q \<Rightarrow> (SendErr, log (Send s b) (set_outq s q w))
      | r # q \<Rightarrow> (SendOk, log (Send s b) (set_outq s q w)))"

text \<open>
  \<open>sock.send(b)\<close> returns the number of bytes the socket took, which may be fewer than
  \<open>len(b)\<close> (at least one of a non-empty buffer), or raises socket.error (\<open>None\<close>). The
  bytes after that count are not written by the call.
\<close>

definition send :: "sock \<Rightarrow> bytes \<Rightarrow> world \<Rightarrow> nat option \<times> world" where
  "send s b w =
     (if closed s w then (None, log (Send s b) w)
      else case outq s w of
        [] \<Rightarrow> (Some (length b), log (Taken s (length b)) (log (Send s b) w))
      | SendOk # q \<Rightarrow>
          (Some (length b), log (Taken s (length b)) (log (Send s b) (set_outq s q w)))
      | SendPart n # q \<Rightarrow>
          (Some (min (max n 1) (length b)),
           log (Taken s (min (max n 1) (length b))) (log (Send s b) (set_outq s q w)))
      | SendErr # q \<Rightarrow> (None, log (Send s b) (set_outq s q w)))"

definition close :: "sock \<Rightarrow> world \<Rightarrow> world" where
  "close s w = log (Close s) w"

definition sleep :: "world \<Rightarrow> world" where
  "sleep w = log Sleep w"

text \<open>The bytes handed to \<open>send\<close>/\<open>sendall\<close> on a socket, and the number of its reads and closes.\<close>

fun sent :: "sock \<Rightarrow> event list \<Rightarrow> bytes list" where
  "sent s [] = []"
| "sent s (Send s' b # es) = (if s' = s then b # sent s es else sent s es)"
| "sent s (_ # es) = sent s es"


definition closes :: "sock \<Rightarrow> event list \<Rightarrow> nat" where
  "closes s es = count_list es (Close s)"

text \<open>Whether the next \<open>sendall\<close> on a socket will succeed.\<close>

definition send_ok :: "sock \<Rightarrow> world \<Rightarrow> bool" where
  "send_ok s w = (\<not> closed s w \<and> (case outq s w of [] \<Rightarrow> True | r # _ \<Rightarrow> r \<noteq> SendErr))"

text \<open>
  The bytes a socket took in the \<open>send\<close> calls of a trace: of each buffer handed to
  \<open>send\<close>, as many bytes as the count returned.
\<close>

fun taken :: "sock \<Rightarrow> event list \<Rightarrow> bytes" where
  "taken s (Send s' b # Taken s'' n # es) =
     (if s' = s \<and> s'' = s then take n b @ taken s es else taken s es)"
| "taken s (_ # es) = taken s es"
| "taken s [] = []"

section \<open>Handshake: subnegotiation_client and subnegotiation\<close>

text \<open>
  Lines 250-261 of \<open>subnegotiation_client\<close>, on the packet that was read: the version
  check, \<open>nmethods = identification_packet[1]\<close> (IndexError on a one-byte packet), the
  comparison of the declared count with the bytes after offset 2, and the scan for
  method 0.
\<close>

fun scan_methods :: "bytes \<Rightarrow> bytes" where
  "scan_methods [] = M_NOTAVAILABLE"
| "scan_methods (method # methods) =
     (if method = 0x00 then M_NOAUTH else scan_methods methods)"

definition select_method :: "bytes \<Rightarrow> exn + bytes" where
  "select_method identification_packet =
     (if VER \<noteq> py_slice 0 1 identification_packet then Inr M_NOTAVAILABLE
      else case byte_at identification_packet 1 of
        Inl e \<Rightarrow> Inl e
      | Inr nmethods \<Rightarrow>
          (let methods = drop 2 identification_packet
           in if length methods \<noteq> unat nmethods then Inr M_NOTAVAILABLE
              else Inr (scan_methods methods)))"

definition subnegotiation_client :: "world \<Rightarrow> (exn + bytes) \<times> world" where
  "subnegotiation_client w =
     (case recv Client BUFSIZE w of
        (Data identification_packet, w1) \<Rightarrow> (select_method identification_packet, w1)
      | (_, w1) \<Rightarrow> (Inr M_NOTAVAILABLE, w1))"

definition subnegotiation :: "world \<Rightarrow> (exn + bool) \<times> world" where
  "subnegotiation w =
     (case subnegotiation_client w of
        (Inl e, w1) \<Rightarrow> (Inl e, w1)
      | (Inr method, w1) \<Rightarrow>
          if method \<noteq> M_NOAUTH then (Inr False, w1)
          else (case sendall Client (VER @ method) w1 of
                  (SendErr, w2) \<Rightarrow> (Inr False, w2)
                | (_, w2) \<Rightarrow> (Inr True, w2)))"

section \<open>Request: request_client, connect_to_dst, proxy_loop and request\<close>

text \<open>
  Lines 147-169 of \<open>request_client\<close>, on the frame that was read. \<open>False\<close> is \<open>None\<close>,
  a destination is \<open>Some (dst_addr, dst_port)\<close>; \<open>inet_ntoa\<close>, \<open>s5_request[4]\<close> and
  \<open>unpack\<close> raise as the library does.
\<close>

definition parse_request :: "bytes \<Rightarrow> exn + (host \<times> nat) option" where
  "parse_request s5_request =
     (if py_slice 0 1 s5_request \<noteq> VER \<or>
         py_slice 1 2 s5_request \<noteq> CMD_CONNECT \<or>
         py_slice 2 3 s5_request \<noteq> [0x00]
      then Inr None
      else if py_slice 3 4 s5_request = ATYP_IPV4 then
        (case inet_ntoa (py_slice 4 8 s5_request) of
           Inl e \<Rightarrow> Inl e
         | Inr dst_addr \<Rightarrow>
             (case unpack_H (py_slice 8 10 s5_request) of
                Inl e \<Rightarrow> Inl e
              | Inr dst_port \<Rightarrow> Inr (Some (dst_addr, dst_port))))
      else if py_slice 3 4 s5_request = ATYP_DOMAINNAME then
        (case byte_at s5_request 4 of
           Inl e \<Rightarrow> Inl e
         | Inr b \<Rightarrow>
             (let sz_domain_name = unat b;
                  dst_addr = py_slice 5 (5 + sz_domain_name) s5_request;
                  port_to_unpack =
                    py_slice (5 + sz_domain_name) (5 + sz_domain_name + 2) s5_request
              in case unpack_H port_to_unpack of
                   Inl e \<Rightarrow> Inl e
                 | Inr dst_port \<Rightarrow> Inr (Some (Name dst_addr, dst_port))))
      else Inr None)"

text \<open>
  Only ConnectionResetError is caught around the read (the socket is closed and \<open>False\<close>
  returned); any other socket.error leaves \<open>request_client\<close> as an exception.
\<close>

definition request_client :: "world \<Rightarrow> (exn + (host \<times> nat) option) \<times> world" where
  "request_client w =
     (case recv Client BUFSIZE w of
        (ResetErr, w1) \<Rightarrow> (Inr None, close Client w1)
      | (SockErr, w1) \<Rightarrow> (Inl OSError, w1)
      | (Data s5_request, w1) \<Rightarrow> (parse_request s5_request, w1))"

text \<open>
  \<open>connect_to_dst\<close>: \<open>create_socket\<close> leaves through \<open>sys.exit\<close> when the socket cannot be
  made. With a non-empty \<open>OUTGOING_INTERFACE\<close> the socket is bound to the device: a
  PermissionError there sets the exit status and execution goes on to \<open>connect\<close>; any
  other error of \<open>setsockopt\<close> is not caught. \<open>sock.connect\<close> raises TypeError, before
  anything goes to the network, when the host is a name that contains a NUL byte, and
  \<open>except socket.error\<close> does not catch that. The result is the local address and port
  of the connected socket, or \<open>None\<close> for the \<open>0\<close> the source returns when connecting (or
  setting TCP_NODELAY) fails with socket.error.
\<close>

fun nul_in_host :: "host \<Rightarrow> bool" where
  "nul_in_host (Dotted b) = False"
| "nul_in_host (Name b) = (0x00 \<in> set b)"

definition connect_to_dst ::
  "host \<Rightarrow> nat \<Rightarrow> world \<Rightarrow> (exn + (bytes \<times> nat) option) \<times> world" where
  "connect_to_dst dst_addr dst_port w =
     (if \<not> create_ok w then (Inl SystemExit, w)
      else if OUTGOING_INTERFACE w \<noteq> [] \<and> bind_r w = BindErr then (Inl OSError, w)
      else
        (let w1 = (if OUTGOING_INTERFACE w \<noteq> [] \<and> bind_r w = BindPerm
                   then w\<lparr>exit_status := True\<rparr> else w)
         in if nul_in_host dst_addr then (Inl TypeError, w1)
            else case conn_r w1 of
              ConnOk a p \<Rightarrow> (Inr (Some (a, p)), log (Connect dst_addr dst_port True) w1)
            | ConnErr \<Rightarrow> (Inr None, log (Connect dst_addr dst_port False) w1)))"

text \<open>
  \<open>proxy_loop\<close>. The body of \<open>for sock in reader\<close> is \<open>forward\<close>, which does nothing
  with the count that \<open>send\<close> returns; the loop itself runs
  over the schedule, one entry for each test of the exit status: whether the signal
  handler has run since the last test, and what \<open>select\<close> returns. The source returns
  nothing; the model says why the loop stopped, and \<open>None\<close> when the schedule ends with
  the loop still running.
\<close>

datatype stop = Shutdown | SelectFailed | PeerClosed | LoopFailed

definition other :: "sock \<Rightarrow> sock" where
  "other s = (case s of Client \<Rightarrow> Dst | Dst \<Rightarrow> Client)"

fun forward :: "sock list \<Rightarrow> world \<Rightarrow> stop option \<times> world" where
  "forward [] w = (None, w)"
| "forward (sock # reader) w =
     (case recv sock BUFSIZE w of
        (Data data, w1) \<Rightarrow>
          if data = [] then (Some PeerClosed, w1)
          else (case send (other sock) data w1 of
                  (None, w2) \<Rightarrow> (Some LoopFailed, w2)
                | (Some count, w2) \<Rightarrow> forward reader w2)
      | (_, w1) \<Rightarrow> (Some LoopFailed, w1))"

fun proxy_loop :: "(bool \<times> sel_res) list \<Rightarrow> world \<Rightarrow> stop option \<times> world" where
  "proxy_loop [] w = (None, w)"
| "proxy_loop ((sig, r) # rest) w =
     (let w1 = (if sig then w\<lparr>exit_status := True\<rparr> else w)
      in if exit_status w1 then (Some Shutdown, w1)
         else case r of
           SelErr \<Rightarrow> (Some SelectFailed, w1)
         | Ready reader \<Rightarrow>
             (case forward reader w1 of
                (Some why, w2) \<Rightarrow> (Some why, w2)
              | (None, w2) \<Rightarrow> proxy_loop rest w2))"

text \<open>
  \<open>request\<close>. \<open>rep\<close> starts as 0x07 and is assigned again on both branches of the test
  \<open>not dst or socket_dst == 0\<close>; \<open>bnd\<close> becomes the local address and port of the
  outbound socket on the second branch only. The result is \<open>None\<close> when the relay loop is still
  running at the end of the schedule, \<open>Some (Inl e)\<close> when an exception leaves the
  function.
\<close>

definition request :: "world \<Rightarrow> (exn + unit) option \<times> world" where
  "request w =
     (case request_client w of
        (Inl e, w1) \<Rightarrow> (Some (Inl e), w1)
      | (Inr dst, w1) \<Rightarrow>
          (case (case dst of
                   None \<Rightarrow> (Inr None, w1)
                 | Some (dst_addr, dst_port) \<Rightarrow> connect_to_dst dst_addr dst_port w1) of
             (Inl e, w2) \<Rightarrow> (Some (Inl e), w2)
           | (Inr socket_dst, w2) \<Rightarrow>
               (let rep = [0x07 :: byte];
                    bnd = [0x00, 0x00, 0x00, 0x00, 0x00, 0x00];
                    (rep, bnd) =
                      (if dst = None \<or> socket_dst = None then ([0x01], bnd)
                       else ([0x00], case socket_dst of
                                       Some (a, p) \<Rightarrow> a @ pack_H p
                                     | None \<Rightarrow> bnd));
                    reply = VER @ rep @ [0x00] @ ATYP_IPV4 @ bnd
                in case sendall Client reply w2 of
                     (SendErr, w3) \<Rightarrow> (Some (Inr ()), close Client w3)
                   | (_, w3) \<Rightarrow>
                       (let (running, w4) =
                              (if rep = [0x00]
                               then (case proxy_loop (sched w3) w3 of
                                       (why, w') \<Rightarrow> (why = None, w'))
                               else (False, w3))
                        in if running then (None, w4)
                           else
                             (let w5 = close Client (sleep w4);
                                  w6 = (if socket_dst \<noteq> None then close Dst w5 else w5)
                              in (Some (Inr ()), w6))))))"

section \<open>One connection\<close>

definition connection :: "world \<Rightarrow> (exn + unit) option \<times> world" where
  "connection w =
     (case subnegotiation w of
        (Inl e, w1) \<Rightarrow> (Some (Inl e), w1)
      | (Inr ok, w1) \<Rightarrow> if ok then request w1 else (Some (Inr ()), w1))"

text \<open>
  A world in which nothing has happened yet, and the session in which the client's
  successive reads deliver the given chunks and the outbound socket, once connected, has
  the local address 10.0.0.2 and port 40000.
\<close>

definition session :: "bytes list \<Rightarrow> world" where
  "session chunks =
     \<lparr>cin = map Data chunks, din = [], cout = [], dout = [], sched = [],
      create_ok = True, bind_r = BindOk, conn_r = ConnOk [10, 0, 0, 2] 40000,
      OUTGOING_INTERFACE = [], exit_status = False, trace = []\<rparr>"

section \<open>The accept loop of main\<close>

text \<open>
  Lines 441-457. \<open>activeCount()\<close> counts every live thread: the main thread that runs
  the loop, the threads started for connections (\<open>units\<close>), and whatever else is alive
  (\<open>others\<close>: the PAC server thread started at line 433, while it lives). Threads run
  interleaved, so the loop is cut at the two points where the main thread looks at the
  outside: the test at the top of an iteration (exit status, then the thread count) and
  the \<open>accept\<close> that follows a passed test. Between them a connection thread may end
  and the number of other threads may change. A timeout or socket.error of \<open>accept\<close>
  continues the loop, a TypeError ends it, an accepted socket starts a new thread.
  The flag that \<open>MainTest\<close> carries is what \<open>EXIT.get_status()\<close> returns at that
  test: \<open>EXIT\<close> is the one object of the process, the \<open>exit_status\<close> of the world that
  the connections run in.
\<close>

datatype accept_res = Accepted | AcceptTimeout | AcceptSockErr | AcceptTypeErr
datatype place = AtTest | AtAccept | Finished

record supervisor =
  units :: nat
  others :: nat
  place :: place

datatype sup_event = MainTest bool | MainAccept accept_res | UnitExit | OthersBecome nat

definition activeCount :: "supervisor \<Rightarrow> nat" where
  "activeCount s = 1 + others s + units s"

fun main_step :: "sup_event \<Rightarrow> supervisor \<Rightarrow> supervisor" where
  "main_step (MainTest exit_set) s =
     (if place s \<noteq> AtTest then s
      else if exit_set then s\<lparr>place := Finished\<rparr>
      else if activeCount s > MAX_THREADS then s
      else s\<lparr>place := AtAccept\<rparr>)"
| "main_step (MainAccept r) s =
     (if place s \<noteq> AtAccept then s
      else case r of
        Accepted \<Rightarrow> s\<lparr>units := units s + 1, place := AtTest\<rparr>
      | AcceptTimeout \<Rightarrow> s\<lparr>place := AtTest\<rparr>
      | AcceptSockErr \<Rightarrow> s\<lparr>place := AtTest\<rparr>
      | AcceptTypeErr \<Rightarrow> s\<lparr>place := Finished\<rparr>)"
| "main_step UnitExit s = s\<lparr>units := units s - 1\<rparr>"
| "main_step (OthersBecome k) s = s\<lparr>others := k\<rparr>"

definition main_start :: "nat \<Rightarrow> supervisor" where
  "main_start k = \<lparr>units = 0, others = k, place = AtTest\<rparr>"

definition main_run :: "sup_event list \<Rightarrow> supervisor \<Rightarrow> supervisor" where
  "main_run evs s = fold main_step evs s"

definition under_ceiling :: "supervisor \<Rightarrow> bool" where
  "under_ceiling s \<longleftrightarrow>
     units s \<le> MAX_THREADS \<and> (place s = AtAccept \<longrightarrow> units s < MAX_THREADS)"

section \<open>Facts about the world\<close>

lemma sent_append: "sent s (xs @ ys) = sent s xs @ sent s ys"
  by (induction s xs rule: sent.induct) auto


lemma closes_append: "closes s (xs @ ys) = closes s xs + closes s ys"
  by (induction xs) (auto simp: closes_def)

lemma trace_recv: "trace (snd (recv s n w)) = trace w @ [Recv s (fst (recv s n w))]"
  by (cases s)
    (auto simp: recv_def log_def set_inq_def inq_def split: list.splits recv_res.splits)

lemma trace_sendall: "trace (snd (sendall s b w)) = trace w @ [Send s b]"
  by (cases s)
    (auto simp: sendall_def log_def set_outq_def outq_def split: list.splits send_res.splits)

lemma trace_send:
  "trace (snd (send s b w)) =
     trace w @ Send s b #
       (case fst (send s b w) of None \<Rightarrow> [] | Some count \<Rightarrow> [Taken s count])"
  by (cases s)
    (auto simp: send_def log_def set_outq_def outq_def split: list.splits send_res.splits)


lemma send_ok_recv: "send_ok s (snd (recv s' n w)) = send_ok s w"
  by (cases s; cases s')
    (auto simp: send_ok_def recv_def closed_def log_def set_inq_def inq_def outq_def
      split: list.splits recv_res.splits)

lemma fst_sendall: "fst (sendall s b w) = (if send_ok s w then SendOk else SendErr)"
  by (auto simp: sendall_def send_ok_def split: list.splits send_res.splits)

lemma forward_grows: "\<exists>new. trace (snd (forward rd w)) = trace w @ new"
proof (induction rd arbitrary: w)
  case Nil
  then show ?case by simp
next
  case (Cons sock reader)
  obtain rr w1 where rv: "recv sock BUFSIZE w = (rr, w1)" by (cases "recv sock BUFSIZE w")
  then have t1: "trace w1 = trace w @ [Recv sock rr]"
    using trace_recv [of sock BUFSIZE w] by simp
  show ?case
  proof (cases rr)
    case (Data d)
    show ?thesis
    proof (cases "d = []")
      case True
      then show ?thesis using rv Data t1 by simp
    next
      case False
      obtain sr w2 where sd: "send (other sock) d w1 = (sr, w2)"
        by (cases "send (other sock) d w1")
      then obtain more1 where t2: "trace w2 = trace w1 @ more1"
        using trace_send [of "other sock" d w1] by simp
      show ?thesis
      proof (cases sr)
        case None
        then show ?thesis using rv Data False sd t1 t2 by simp
      next
        case (Some count)
        from Cons.IH [of w2] obtain more2 where
          "trace (snd (forward reader w2)) = trace w2 @ more2" by blast
        then show ?thesis using rv Data False sd Some t1 t2 by simp
      qed
    qed
  next
    case ResetErr
    then show ?thesis using rv t1 by simp
  next
    case SockErr
    then show ?thesis using rv t1 by simp
  qed
qed

lemma proxy_loop_grows: "\<exists>new. trace (snd (proxy_loop sch w)) = trace w @ new"
proof (induction sch arbitrary: w)
  case Nil
  then show ?case by simp
next
  case (Cons x rest)
  obtain sig sel where x: "x = (sig, sel)" by (cases x)
  define w1 where "w1 = (if sig then w\<lparr>exit_status := True\<rparr> else w)"
  have t1: "trace w1 = trace w" by (simp add: w1_def)
  show ?case
  proof (cases "exit_status w1")
    case True
    then show ?thesis using t1 by (simp add: x Let_def w1_def)
  next
    case False
    show ?thesis
    proof (cases sel)
      case SelErr
      then show ?thesis using False t1 by (simp add: x Let_def w1_def)
    next
      case (Ready reader)
      obtain fr w2 where f: "forward reader w1 = (fr, w2)" by (cases "forward reader w1")
      then obtain more1 where t2: "trace w2 = trace w @ more1"
        using forward_grows [of reader w1] t1 by auto
      show ?thesis
      proof (cases fr)
        case (Some why)
        then show ?thesis using False Ready f t2 by (simp add: x Let_def w1_def [symmetric])
      next
        case None
        from Cons.IH [of w2] obtain more2 where
          "trace (snd (proxy_loop rest w2)) = trace w2 @ more2" by blast
        then show ?thesis
          using False Ready f None t2 by (simp add: x Let_def w1_def [symmetric])
      qed
    qed
  qed
qed

section \<open>The handshake\<close>

lemma scan_methods_cases:
  "scan_methods ms = (if 0 \<in> set ms then M_NOAUTH else M_NOTAVAILABLE)"
  by (induction ms) auto

lemma select_method_noauth:
  assumes "p \<noteq> []" "p ! 0 = 0x05" "2 \<le> length p" "unat (p ! 1) = length p - 2"
    and "0 \<in> set (drop 2 p)"
  shows "select_method p = Inr M_NOAUTH"
  using assms
  by (cases p)
    (auto simp: select_method_def VER_def py_slice_def byte_at_def Let_def scan_methods_cases)

lemma select_method_no_noauth:
  assumes "0 \<notin> set (drop 2 p)"
  shows "select_method p = (if p = [0x05] then Inl IndexError else Inr M_NOTAVAILABLE)"
proof (cases p)
  case Nil
  then show ?thesis by (simp add: select_method_def VER_def py_slice_def)
next
  case (Cons v rest)
  show ?thesis
  proof (cases rest)
    case Nil
    then show ?thesis
      using Cons by (auto simp: select_method_def VER_def py_slice_def byte_at_def)
  next
    case (Cons n ms)
    then show ?thesis
      using \<open>p = v # rest\<close> assms
      by (auto simp: select_method_def VER_def py_slice_def byte_at_def Let_def
          scan_methods_cases)
  qed
qed

text \<open>
  Claim C5. When the packet read from the client has version byte 0x05, a method count
  equal to the number of method bytes that follow, and 0x00 among those methods, the
  method selected is "no authentication", the bytes (0x05, 0x00) are handed to
  \<open>sendall\<close> on the client socket, once, and nothing else is sent; the negotiation
  returns \<open>True\<close> exactly when that write succeeds.
\<close>

theorem handshake_noauth_succeeds:
  assumes "fst (recv Client BUFSIZE w) = Data p"
    and "p \<noteq> []" "p ! 0 = 0x05" "2 \<le> length p" "unat (p ! 1) = length p - 2"
    and "0x00 \<in> set (drop 2 p)"
  shows "fst (subnegotiation_client w) = Inr M_NOAUTH \<and>
         sent Client (trace (snd (subnegotiation w))) = sent Client (trace w) @ [[0x05, 0x00]] \<and>
         fst (subnegotiation w) = Inr (send_ok Client w)"
proof -
  obtain w1 where r: "recv Client BUFSIZE w = (Data p, w1)"
    using assms(1) by (cases "recv Client BUFSIZE w") auto
  have sm: "select_method p = Inr M_NOAUTH"
    using assms(2-6) by (rule select_method_noauth)
  have w1: "w1 = snd (recv Client BUFSIZE w)" using r by simp
  have t1: "trace w1 = trace w @ [Recv Client (Data p)]"
    using trace_recv [of Client BUFSIZE w] r by simp
  have ok1: "send_ok Client w1 = send_ok Client w"
    unfolding w1 by (rule send_ok_recv)
  obtain sr w2 where s: "sendall Client [0x05, 0x00] w1 = (sr, w2)"
    by (cases "sendall Client [0x05, 0x00] w1") auto
  have t2: "trace w2 = trace w1 @ [Send Client [0x05, 0x00]]"
    using trace_sendall [of Client "[0x05, 0x00]" w1] s by simp
  have sr: "sr = (if send_ok Client w then SendOk else SendErr)"
    using fst_sendall [of Client "[0x05, 0x00]" w1] s ok1 by simp
  have a: "subnegotiation_client w = (Inr M_NOAUTH, w1)"
    by (simp add: subnegotiation_client_def r sm)
  have b: "subnegotiation w = (Inr (send_ok Client w), w2)"
    by (simp add: subnegotiation_def a VER_def M_NOAUTH_def s sr)
  show ?thesis
    by (simp add: a b t2 t1 sent_append)
qed

lemmas world_simps =
  session_def recv_def send_def sendall_def closed_def inq_def outq_def set_inq_def
  set_outq_def log_def close_def sleep_def send_ok_def BUFSIZE_def

lemmas proto_simps =
  VER_def M_NOAUTH_def M_NOTAVAILABLE_def CMD_CONNECT_def ATYP_IPV4_def
  ATYP_DOMAINNAME_def py_slice_def byte_at_def unpack_H_def pack_H_def inet_ntoa_def

theorem handshake_noauth_succeeds_witness:
  "fst (subnegotiation (session [[0x05, 0x02, 0x02, 0x00]])) = Inr True \<and>
   sent Client (trace (snd (subnegotiation (session [[0x05, 0x02, 0x02, 0x00]]))))
     = [[0x05, 0x00]]"
  using handshake_noauth_succeeds
    [of "session [[0x05, 0x02, 0x02, 0x00]]" "[0x05, 0x02, 0x02, 0x00]"]
  by (simp add: world_simps)

text \<open>
  Claim C1, as the code has it. When the methods of the packet read from the client
  (the bytes after offset 2) do not contain 0x00, the negotiation sends nothing and
  returns \<open>False\<close>, and the function run by the thread returns without reading a
  request; the world is left as it was after that one read. The one exception is the
  one-byte packet 05: there \<open>identification_packet[1]\<close> raises IndexError, which leaves
  the negotiation and the function run by the thread uncaught, again with nothing sent.
\<close>

theorem handshake_without_noauth_sends_nothing:
  assumes "fst (recv Client BUFSIZE w) = Data p" and "0x00 \<notin> set (drop 2 p)"
  shows "subnegotiation w =
           (if p = [0x05] then Inl IndexError else Inr False, snd (recv Client BUFSIZE w)) \<and>
         connection w =
           (Some (if p = [0x05] then Inl IndexError else Inr ()), snd (recv Client BUFSIZE w)) \<and>
         trace (snd (recv Client BUFSIZE w)) = trace w @ [Recv Client (Data p)]"
proof -
  obtain w1 where r: "recv Client BUFSIZE w = (Data p, w1)"
    using assms(1) by (cases "recv Client BUFSIZE w") auto
  have t1: "trace w1 = trace w @ [Recv Client (Data p)]"
    using trace_recv [of Client BUFSIZE w] r by simp
  have a: "subnegotiation_client w = (select_method p, w1)"
    by (simp add: subnegotiation_client_def r)
  have m: "select_method p = (if p = [0x05] then Inl IndexError else Inr M_NOTAVAILABLE)"
    using assms(2) by (rule select_method_no_noauth)
  have b: "subnegotiation w = (if p = [0x05] then Inl IndexError else Inr False, w1)"
    by (simp add: subnegotiation_def a m M_NOAUTH_def M_NOTAVAILABLE_def)
  have c: "connection w = (Some (if p = [0x05] then Inl IndexError else Inr ()), w1)"
    by (simp add: connection_def b)
  show ?thesis using b c t1 r by simp
qed

theorem handshake_without_noauth_sends_nothing_witness:
  "subnegotiation (session [[0x05, 0x01, 0x02]])
     = (Inr False, (session [])\<lparr>trace := [Recv Client (Data [0x05, 0x01, 0x02])]\<rparr>) \<and>
   connection (session [[0x05]])
     = (Some (Inl IndexError), (session [])\<lparr>trace := [Recv Client (Data [0x05])]\<rparr>)"
proof -
  have a: "recv Client BUFSIZE (session [[0x05, 0x01, 0x02]])
        = (Data [0x05, 0x01, 0x02], (session [])\<lparr>trace := [Recv Client (Data [0x05, 0x01, 0x02])]\<rparr>)"
    by (simp add: world_simps)
  have b: "recv Client BUFSIZE (session [[0x05]])
        = (Data [0x05], (session [])\<lparr>trace := [Recv Client (Data [0x05])]\<rparr>)"
    by (simp add: world_simps)
  show ?thesis
    using handshake_without_noauth_sends_nothing
        [of "session [[0x05, 0x01, 0x02]]" "[0x05, 0x01, 0x02]"]
      handshake_without_noauth_sends_nothing [of "session [[0x05]]" "[0x05]"]
    by (simp add: a b)
qed

text \<open>
  The claim as the specification states it fails: a client that offers only method 0x02
  is sent nothing, so not the reply (0x05, 0xFF), and its socket is not closed.
\<close>

theorem handshake_no_acceptable_reply_counterexample:
  "sent Client (trace (snd (connection (session [[0x05, 0x01, 0x02]])))) \<noteq> [[0x05, 0xFF]] \<and>
   sent Client (trace (snd (connection (session [[0x05, 0x01, 0x02]])))) = [] \<and>
   closes Client (trace (snd (connection (session [[0x05, 0x01, 0x02]])))) = 0"
  by (simp add: connection_def subnegotiation_def subnegotiation_client_def
      select_method_def world_simps proto_simps closes_def)

section \<open>Decoding the request\<close>

lemma take2_drop:
  assumes "n + 2 \<le> length xs"
  shows "take 2 (drop n xs) = [xs ! n, xs ! Suc n]"
proof (rule nth_equalityI)
  show "length (take 2 (drop n xs)) = length [xs ! n, xs ! Suc n]" using assms by simp
next
  fix i assume "i < length (take 2 (drop n xs))"
  then have "i = 0 \<or> i = 1" by auto
  then show "take 2 (drop n xs) ! i = [xs ! n, xs ! Suc n] ! i" using assms by auto
qed

lemma parse_domain:
  "parse_request (0x05 # 0x01 # 0x00 # 0x03 # l # rest) =
     (if unat l + 2 \<le> length rest
      then Inr (Some (Name (take (unat l) rest),
                      256 * unat (rest ! unat l) + unat (rest ! (unat l + 1))))
      else Inl StructError)"
proof (cases "unat l + 2 \<le> length rest")
  case True
  then have "take 2 (drop (unat l) rest) = [rest ! unat l, rest ! Suc (unat l)]"
    by (rule take2_drop)
  with True show ?thesis
    by (simp add: parse_request_def proto_simps Let_def)
next
  case False
  then have "length (take 2 (drop (unat l) rest)) \<noteq> 2" by simp
  with False show ?thesis
    by (simp add: parse_request_def proto_simps Let_def)
qed

lemma parse_domain_no_length:
  "parse_request [0x05, 0x01, 0x00, 0x03] = Inl IndexError"
  by (simp add: parse_request_def proto_simps)

lemma parse_ipv4:
  "parse_request (0x05 # 0x01 # 0x00 # 0x01 # rest) =
     (if length rest < 4 then Inl OSError
      else if length rest < 6 then Inl StructError
      else Inr (Some (Dotted (take 4 rest), 256 * unat (rest ! 4) + unat (rest ! 5))))"
proof -
  consider "length rest < 4" | "4 \<le> length rest" "length rest < 6" | "6 \<le> length rest"
    by linarith
  then show ?thesis
  proof cases
    case 1
    then show ?thesis by (simp add: parse_request_def proto_simps)
  next
    case 2
    then have "length (take 2 (drop 4 rest)) \<noteq> 2" by simp
    with 2 show ?thesis by (simp add: parse_request_def proto_simps)
  next
    case 3
    then have "take 2 (drop 4 rest) = [rest ! 4, rest ! Suc 4]"
      using take2_drop [of 4 rest] by simp
    with 3 show ?thesis by (simp add: parse_request_def proto_simps)
  qed
qed

lemma parse_header_mismatch:
  assumes "py_slice 0 1 s \<noteq> VER \<or> py_slice 1 2 s \<noteq> CMD_CONNECT \<or> py_slice 2 3 s \<noteq> [0x00]"
  shows "parse_request s = Inr None"
  using assms unfolding parse_request_def by auto

lemma parse_short_header:
  assumes "length s < 4"
  shows "parse_request s = Inr None"
  using assms unfolding parse_request_def by (auto simp: proto_simps)

lemma parse_atyp_other:
  assumes "py_slice 3 4 s \<noteq> ATYP_IPV4" "py_slice 3 4 s \<noteq> ATYP_DOMAINNAME"
  shows "parse_request s = Inr None"
  using assms unfolding parse_request_def by auto

lemma select_method_count_mismatch:
  assumes "2 \<le> length p" "unat (p ! 1) \<noteq> length p - 2"
  shows "select_method p = Inr M_NOTAVAILABLE"
  using assms unfolding select_method_def by (auto simp: byte_at_def Let_def)

lemma select_method_version_mismatch:
  assumes "py_slice 0 1 p \<noteq> VER"
  shows "select_method p = Inr M_NOTAVAILABLE"
  using assms unfolding select_method_def by auto

lemma request_raises:
  assumes "fst (request_client w) = Inl e"
  shows "fst (request w) = Some (Inl e)"
  using assms unfolding request_def by (cases "request_client w") auto

lemma subnegotiation_raises:
  assumes "fst (subnegotiation_client w) = Inl e"
  shows "fst (connection w) = Some (Inl e)"
  using assms unfolding connection_def subnegotiation_def
  by (cases "subnegotiation_client w") auto

section \<open>Reads, writes and the reply of the request phase\<close>

lemma recv_pair: "recv s n w = (fst (recv s n w), snd (recv s n w))" by simp


lemma recv_traceD: "recv s n w = (r, w') \<Longrightarrow> trace w' = trace w @ [Recv s r]"
  using trace_recv [of s n w] by simp





lemma trace_request_client:
  "trace (snd (request_client w)) =
     trace w @ Recv Client (fst (recv Client BUFSIZE w)) #
       (if fst (recv Client BUFSIZE w) = ResetErr then [Close Client] else [])"
  by (cases "recv Client BUFSIZE w")
    (auto simp: request_client_def close_def log_def dest: recv_traceD split: recv_res.splits)


lemma sent_request_client:
  "sent s (trace (snd (request_client w))) = sent s (trace w)"
  by (simp add: trace_request_client sent_append)

lemma sent_connect:
  "sent s (trace (snd (connect_to_dst a p w))) = sent s (trace w)"
  by (auto simp: connect_to_dst_def Let_def log_def sent_append split: conn_res.splits)

lemma request_client_raises:
  assumes "fst (request_client w) = Inl e"
  shows "request w = (Some (Inl e), snd (request_client w))"
  using assms unfolding request_def by (cases "request_client w") auto

lemma request_after_failure:
  assumes "sent Client (trace w2) = sent Client (trace w)"
  shows "sent Client (trace (snd
           (case sendall Client reply w2 of
              (SendErr, w3) \<Rightarrow> (Some (Inr ()), close Client w3)
            | (_, w3) \<Rightarrow> (Some (Inr ()), close Client (sleep w3)))))
         = sent Client (trace w) @ [reply]"
  using assms trace_sendall [of Client reply w2]
  by (cases "sendall Client reply w2")
    (auto simp: close_def sleep_def log_def sent_append split: send_res.splits)

lemma request_reply_failure:
  assumes "fst (request_client w) = Inr None \<or>
           (\<exists>a p. fst (request_client w) = Inr (Some (a, p)) \<and>
                  fst (connect_to_dst a p (snd (request_client w))) = Inr None)"
  shows "sent Client (trace (snd (request w)))
           = sent Client (trace w) @ [[0x05, 0x01, 0x00, 0x01, 0x00, 0x00, 0x00, 0x00, 0x00, 0x00]]"
proof -
  obtain d w1 where rc: "request_client w = (d, w1)" by (cases "request_client w")
  have s1: "sent Client (trace w1) = sent Client (trace w)"
    using sent_request_client [of Client w] rc by simp
  from assms rc show ?thesis
  proof (elim disjE exE conjE)
    assume "fst (request_client w) = Inr None"
    then have d: "d = Inr None" using rc by simp
    have "request w =
        (case sendall Client [0x05, 0x01, 0x00, 0x01, 0x00, 0x00, 0x00, 0x00, 0x00, 0x00] w1 of
           (SendErr, w3) \<Rightarrow> (Some (Inr ()), close Client w3)
         | (_, w3) \<Rightarrow> (Some (Inr ()), close Client (sleep w3)))"
      by (simp add: request_def rc d Let_def proto_simps split: prod.splits send_res.splits)
    then show ?thesis using request_after_failure [OF s1] by simp
  next
    fix a p
    assume "fst (request_client w) = Inr (Some (a, p))"
      and c: "fst (connect_to_dst a p (snd (request_client w))) = Inr None"
    then have d: "d = Inr (Some (a, p))" using rc by simp
    obtain w2 where c2: "connect_to_dst a p w1 = (Inr None, w2)"
      using c rc by (cases "connect_to_dst a p w1") auto
    have s2: "sent Client (trace w2) = sent Client (trace w)"
      using sent_connect [of Client a p w1] c2 s1 by simp
    have "request w =
        (case sendall Client [0x05, 0x01, 0x00, 0x01, 0x00, 0x00, 0x00, 0x00, 0x00, 0x00] w2 of
           (SendErr, w3) \<Rightarrow> (Some (Inr ()), close Client w3)
         | (_, w3) \<Rightarrow> (Some (Inr ()), close Client (sleep w3)))"
      by (simp add: request_def rc d c2 Let_def proto_simps split: prod.splits send_res.splits)
    then show ?thesis using request_after_failure [OF s2] by simp
  qed
qed

lemma request_reset:
  assumes "fst (recv Client BUFSIZE w) = ResetErr"
  shows "trace (snd (request w)) =
           trace w @ [Recv Client ResetErr, Close Client,
                      Send Client [0x05, 0x01, 0x00, 0x01, 0x00, 0x00, 0x00, 0x00, 0x00, 0x00],
                      Close Client]"
proof -
  obtain w1 where r: "recv Client BUFSIZE w = (ResetErr, w1)"
    using assms by (cases "recv Client BUFSIZE w") auto
  have t1: "trace w1 = trace w @ [Recv Client ResetErr]"
    using trace_recv [of Client BUFSIZE w] r by simp
  have rc: "request_client w = (Inr None, close Client w1)"
    by (simp add: request_client_def r)
  have cl: "closed Client (close Client w1)"
    by (simp add: closed_def close_def log_def)
  have sa: "sendall Client b (close Client w1)
            = (SendErr, log (Send Client b) (close Client w1))" for b
    using cl by (simp add: sendall_def)
  have "request w = (Some (Inr ()),
      close Client (log (Send Client [0x05, 0x01, 0x00, 0x01, 0x00, 0x00, 0x00, 0x00, 0x00, 0x00])
        (close Client w1)))"
    by (simp add: request_def rc Let_def proto_simps sa)
  then show ?thesis
    by (simp add: close_def log_def t1)
qed

lemma request_connect_raises:
  assumes "fst (request_client w) = Inr (Some (a, p))"
    and "fst (connect_to_dst a p (snd (request_client w))) = Inl e"
  shows "fst (request w) = Some (Inl e) \<and>
         sent Client (trace (snd (request w))) = sent Client (trace w)"
proof -
  obtain w1 where rc: "request_client w = (Inr (Some (a, p)), w1)"
    using assms(1) by (cases "request_client w") auto
  obtain w2 where c: "connect_to_dst a p w1 = (Inl e, w2)"
    using assms(2) rc by (cases "connect_to_dst a p w1") auto
  have "sent Client (trace w2) = sent Client (trace w)"
    using sent_connect [of Client a p w1] sent_request_client [of Client w] rc c by simp
  then show ?thesis by (simp add: request_def rc c)
qed

lemma request_reply_success:
  assumes "fst (request_client w) = Inr (Some (a, p))"
    and "fst (connect_to_dst a p (snd (request_client w))) = Inr (Some (la, lp))"
  shows "\<exists>relayed. sent Client (trace (snd (request w)))
           = sent Client (trace w) @ ([0x05, 0x00, 0x00, 0x01] @ la @ pack_H lp) # relayed"
proof -
  let ?reply = "[0x05, 0x00, 0x00, 0x01] @ la @ pack_H lp"
  obtain w1 where rc: "request_client w = (Inr (Some (a, p)), w1)"
    using assms(1) by (cases "request_client w") auto
  obtain w2 where c: "connect_to_dst a p w1 = (Inr (Some (la, lp)), w2)"
    using assms(2) rc by (cases "connect_to_dst a p w1") auto
  have s2: "sent Client (trace w2) = sent Client (trace w)"
    using sent_connect [of Client a p w1] sent_request_client [of Client w] rc c by simp
  obtain sr w3 where sa: "sendall Client ?reply w2 = (sr, w3)"
    by (cases "sendall Client ?reply w2")
  have t3: "trace w3 = trace w2 @ [Send Client ?reply]"
    using trace_sendall [of Client ?reply w2] sa by simp
  have s3: "sent Client (trace w3) = sent Client (trace w) @ [?reply]"
    by (simp add: t3 sent_append s2)
  show ?thesis
  proof (cases "sr = SendErr")
    case True
    then have "request w = (Some (Inr ()), close Client w3)"
      using sa by (simp add: request_def rc c Let_def proto_simps)
    then show ?thesis by (simp add: close_def log_def sent_append s3)
  next
    case False
    obtain why w4 where pl: "proxy_loop (sched w3) w3 = (why, w4)"
      by (cases "proxy_loop (sched w3) w3")
    obtain new where t4: "trace w4 = trace w3 @ new"
      using proxy_loop_grows [of "sched w3" w3] pl by auto
    have s4: "sent Client (trace w4) = sent Client (trace w) @ ?reply # sent Client new"
      by (simp add: t4 sent_append s3)
    have "request w = (if why = None then (None, w4)
                       else (Some (Inr ()), close Dst (close Client (sleep w4))))"
      using sa False pl
      by (cases sr) (simp_all add: request_def rc c Let_def proto_simps)
    then show ?thesis
      by (auto simp: close_def sleep_def log_def sent_append s4)
  qed
qed

section \<open>Claims about the request phase\<close>

text \<open>
  Claim C2, as the code has it. The first thing \<open>request\<close> sends to the client, when it
  sends anything, is the reply, and its status byte is 0x00 or 0x01, never 0x07.
  When \<open>request_client\<close> returns \<open>False\<close> (a request that fails the version, command,
  reserved-byte or address-type tests), and also when the request was parsed and
  connecting failed with socket.error, the reply has status byte 0x01, address type 0x01,
  an all-zero 4-byte bound address and a zero port, and it is the only thing sent. When
  connecting succeeds the reply has status 0x00 and the local address and port of the
  outbound socket. No reply is sent when \<open>request_client\<close> or \<open>connect_to_dst\<close> raises
  (a truncated frame, a host name with a NUL byte): the exception leaves \<open>request\<close>.
  After a ConnectionResetError on the read the 0x01 reply is handed to \<open>sendall\<close> on the
  client socket that \<open>request_client\<close> has just closed, where it fails, and the socket
  is closed a second time.
\<close>

theorem request_reply_status:
  "(\<forall>e. fst (request_client w) = Inl e \<longrightarrow>
      request w = (Some (Inl e), snd (request_client w)) \<and>
      sent Client (trace (snd (request w))) = sent Client (trace w)) \<and>
   (fst (request_client w) = Inr None \<longrightarrow>
      sent Client (trace (snd (request w)))
        = sent Client (trace w) @ [[0x05, 0x01, 0x00, 0x01, 0x00, 0x00, 0x00, 0x00, 0x00, 0x00]]) \<and>
   (fst (recv Client BUFSIZE w) = ResetErr \<longrightarrow>
      trace (snd (request w)) =
        trace w @ [Recv Client ResetErr, Close Client,
                   Send Client [0x05, 0x01, 0x00, 0x01, 0x00, 0x00, 0x00, 0x00, 0x00, 0x00],
                   Close Client]) \<and>
   (\<forall>a p. fst (request_client w) = Inr (Some (a, p)) \<longrightarrow>
      (\<forall>e. fst (connect_to_dst a p (snd (request_client w))) = Inl e \<longrightarrow>
         fst (request w) = Some (Inl e) \<and>
         sent Client (trace (snd (request w))) = sent Client (trace w)) \<and>
      (fst (connect_to_dst a p (snd (request_client w))) = Inr None \<longrightarrow>
         sent Client (trace (snd (request w)))
           = sent Client (trace w) @ [[0x05, 0x01, 0x00, 0x01, 0x00, 0x00, 0x00, 0x00, 0x00, 0x00]]) \<and>
      (\<forall>la lp. fst (connect_to_dst a p (snd (request_client w))) = Inr (Some (la, lp)) \<longrightarrow>
         (\<exists>relayed. sent Client (trace (snd (request w)))
            = sent Client (trace w) @ ([0x05, 0x00, 0x00, 0x01] @ la @ pack_H lp) # relayed))) \<and>
   (\<forall>reply relayed.
      sent Client (trace (snd (request w))) = sent Client (trace w) @ reply # relayed \<longrightarrow>
      reply ! 1 = 0x00 \<or> reply ! 1 = 0x01)"
proof -
  let ?fail = "[0x05, 0x01, 0x00, 0x01, 0x00, 0x00, 0x00, 0x00, 0x00, 0x00] :: bytes"
  let ?new = "\<lambda>xs. sent Client (trace (snd (request w))) = sent Client (trace w) @ xs"
  have a: "\<forall>e. fst (request_client w) = Inl e \<longrightarrow>
      request w = (Some (Inl e), snd (request_client w)) \<and>
      sent Client (trace (snd (request w))) = sent Client (trace w)"
    using request_client_raises [of w] sent_request_client [of Client w] by auto
  have b: "fst (request_client w) = Inr None \<longrightarrow> ?new [?fail]"
    using request_reply_failure [of w] by blast
  have c: "fst (recv Client BUFSIZE w) = ResetErr \<longrightarrow>
      trace (snd (request w)) =
        trace w @ [Recv Client ResetErr, Close Client, Send Client ?fail, Close Client]"
    using request_reset [of w] by blast
  have d1: "\<forall>a p. fst (request_client w) = Inr (Some (a, p)) \<longrightarrow>
      (\<forall>e. fst (connect_to_dst a p (snd (request_client w))) = Inl e \<longrightarrow>
         fst (request w) = Some (Inl e) \<and>
         sent Client (trace (snd (request w))) = sent Client (trace w))"
    using request_connect_raises [of w] by blast
  have d2: "\<forall>a p. fst (request_client w) = Inr (Some (a, p)) \<longrightarrow>
      fst (connect_to_dst a p (snd (request_client w))) = Inr None \<longrightarrow> ?new [?fail]"
    using request_reply_failure [of w] by blast
  have d3: "\<forall>a p. fst (request_client w) = Inr (Some (a, p)) \<longrightarrow>
      (\<forall>la lp. fst (connect_to_dst a p (snd (request_client w))) = Inr (Some (la, lp)) \<longrightarrow>
         (\<exists>relayed. ?new (([0x05, 0x00, 0x00, 0x01] @ la @ pack_H lp) # relayed)))"
    using request_reply_success [of w] by blast
  have e: "\<forall>reply relayed. ?new (reply # relayed) \<longrightarrow> reply ! 1 = 0x00 \<or> reply ! 1 = 0x01"
  proof (intro allI impI)
    fix reply relayed assume n: "?new (reply # relayed)"
    show "reply ! 1 = 0x00 \<or> reply ! 1 = 0x01"
    proof (cases "fst (request_client w)")
      case (Inl e)
      then show ?thesis using a n by simp
    next
      case (Inr dst)
      show ?thesis
      proof (cases dst)
        case None
        then have "?new [?fail]" using b Inr by simp
        then have "reply = ?fail" using n by simp
        then show ?thesis by simp
      next
        case (Some ap)
        obtain a0 p0 where ap: "ap = (a0, p0)" by (cases ap)
        have rc: "fst (request_client w) = Inr (Some (a0, p0))" using Inr Some ap by simp
        show ?thesis
        proof (cases "fst (connect_to_dst a0 p0 (snd (request_client w)))")
          case (Inl e)
          then show ?thesis using d1 rc n by simp
        next
          case (Inr sd)
          show ?thesis
          proof (cases sd)
            case None
            then have "?new [?fail]" using d2 rc Inr by simp
            then have "reply = ?fail" using n by simp
            then show ?thesis by simp
          next
            case (Some lalp)
            obtain la lp where l: "lalp = (la, lp)" by (cases lalp)
            from d3 rc Inr Some l obtain relayed' where
              "?new (([0x05, 0x00, 0x00, 0x01] @ la @ pack_H lp) # relayed')" by auto
            then have "reply = [0x05, 0x00, 0x00, 0x01] @ la @ pack_H lp" using n by simp
            then show ?thesis by simp
          qed
        qed
      qed
    qed
  qed
  show ?thesis using a b c d1 d2 d3 e by blast
qed

theorem request_reply_status_witness:
  "sent Client (trace (snd (request
      ((session [[0x05, 0x01, 0x00, 0x01, 127, 0, 0, 1, 0, 80]])\<lparr>conn_r := ConnErr\<rparr>))))
     = [[0x05, 0x01, 0x00, 0x01, 0x00, 0x00, 0x00, 0x00, 0x00, 0x00]] \<and>
   fst (request (session [[0x05, 0x01, 0x00, 0x03, 0x01, 0x00, 0x00, 0x50]]))
     = Some (Inl TypeError) \<and>
   sent Client (trace (snd (request (session [[0x05, 0x01, 0x00, 0x03, 0x01, 0x00, 0x00, 0x50]]))))
     = [] \<and>
   sent Client (trace (snd (request (session [[0x05, 0x01, 0x00, 0x04]]))))
     = [[0x05, 0x01, 0x00, 0x01, 0x00, 0x00, 0x00, 0x00, 0x00, 0x00]]"
proof -
  define w1 where "w1 = (session [[0x05, 0x01, 0x00, 0x01, 127, 0, 0, 1, 0, 80]])\<lparr>conn_r := ConnErr\<rparr>"
  define w2 where "w2 = session [[0x05, 0x01, 0x00, 0x03, 0x01, 0x00, 0x00, 0x50]]"
  define w3 where "w3 = session [[0x05, 0x01, 0x00, 0x04]]"
  have r1: "fst (request_client w1) = Inr (Some (Dotted [127, 0, 0, 1], 80))"
    and c1: "fst (connect_to_dst (Dotted [127, 0, 0, 1]) 80 (snd (request_client w1))) = Inr None"
    and t1: "sent Client (trace w1) = []"
    unfolding w1_def
    by (simp_all add: request_client_def parse_request_def connect_to_dst_def world_simps
        proto_simps Let_def)
  have r2: "fst (request_client w2) = Inr (Some (Name [0x00], 80))"
    and c2: "fst (connect_to_dst (Name [0x00]) 80 (snd (request_client w2))) = Inl TypeError"
    and t2: "sent Client (trace w2) = []"
    unfolding w2_def
    by (simp_all add: request_client_def parse_request_def connect_to_dst_def world_simps
        proto_simps Let_def)
  have r3: "fst (request_client w3) = Inr None" and t3: "sent Client (trace w3) = []"
    unfolding w3_def
    by (simp_all add: request_client_def parse_request_def world_simps proto_simps)
  have a: "sent Client (trace (snd (request w1)))
     = [[0x05, 0x01, 0x00, 0x01, 0x00, 0x00, 0x00, 0x00, 0x00, 0x00]]"
    using request_reply_status [of w1] r1 c1 t1 by simp
  have b: "fst (request w2) = Some (Inl TypeError) \<and> sent Client (trace (snd (request w2))) = []"
    using request_reply_status [of w2] r2 c2 t2 by simp
  have c: "sent Client (trace (snd (request w3)))
     = [[0x05, 0x01, 0x00, 0x01, 0x00, 0x00, 0x00, 0x00, 0x00, 0x00]]"
    using request_reply_status [of w3] r3 t3 by simp
  show ?thesis using a b c unfolding w1_def w2_def w3_def by simp
qed

text \<open>
  The claim as the specification states it fails: for a request with the unsupported
  command BIND (0x02) the status byte of the reply is 0x01, not 0x07.
\<close>

theorem unsupported_command_status_counterexample:
  "sent Client (trace (snd (request (session [[0x05, 0x02, 0x00, 0x01, 127, 0, 0, 1, 0, 80]]))))
     = [[0x05, 0x01, 0x00, 0x01, 0x00, 0x00, 0x00, 0x00, 0x00, 0x00]] \<and>
   map (\<lambda>reply. reply ! 1)
     (sent Client (trace (snd (request
        (session [[0x05, 0x02, 0x00, 0x01, 127, 0, 0, 1, 0, 80]]))))) \<noteq> [0x07]"
  by (simp add: request_def request_client_def parse_request_def world_simps proto_simps)

text \<open>
  Claim C3 at a failing input. The client completes the handshake and sends a valid IPv4
  CONNECT request, the outbound connection is made, and writing the reply to the client
  fails. The unit returns after closing the client socket once; the destination socket,
  which was opened, is never closed.
\<close>

theorem reply_send_failure_leaves_destination_open:
  "connection ((session [[0x05, 0x01, 0x00],
        [0x05, 0x01, 0x00, 0x01, 127, 0, 0, 1, 0, 80]])\<lparr>cout := [SendOk, SendErr]\<rparr>)
   = (Some (Inr ()),
      (session [])\<lparr>cout := [], trace :=
        [Recv Client (Data [0x05, 0x01, 0x00]), Send Client [0x05, 0x00],
         Recv Client (Data [0x05, 0x01, 0x00, 0x01, 127, 0, 0, 1, 0, 80]),
         Connect (Dotted [127, 0, 0, 1]) 80 True,
         Send Client [0x05, 0x00, 0x00, 0x01, 10, 0, 0, 2, 156, 64],
         Close Client]\<rparr>)"
  by (simp add: connection_def subnegotiation_def subnegotiation_client_def select_method_def
      request_def request_client_def parse_request_def connect_to_dst_def
      world_simps proto_simps Let_def)

text \<open>
  Claim C4, as the code has it. In a domain-name CONNECT frame, 05 01 00 03 followed by
  the length byte \<open>l\<close> and the bytes \<open>rest\<close>, the name is the \<open>l\<close> bytes at offsets
  \<open>[5, 5 + l)\<close> and the port the two bytes at \<open>[5 + l, 5 + l + 2)\<close>, big-endian, whenever
  the frame has at least \<open>5 + l + 2\<close> bytes; bytes after the port are ignored. A frame
  with fewer bytes is not parsed into a message: \<open>unpack\<close> raises struct.error.
\<close>

theorem domain_request_length_prefix:
  assumes "f = 0x05 # 0x01 # 0x00 # 0x03 # l # rest"
  shows "parse_request f =
     (if 5 + unat l + 2 \<le> length f
      then Inr (Some (Name (py_slice 5 (5 + unat l) f),
                      256 * unat (f ! (5 + unat l)) + unat (f ! (5 + unat l + 1))))
      else Inl StructError)"
  unfolding assms by (simp add: parse_domain py_slice_def)

theorem domain_request_length_prefix_witness:
  "parse_request [0x05, 0x01, 0x00, 0x03, 0x02, 0x61, 0x62, 0x01, 0xBB]
     = Inr (Some (Name [0x61, 0x62], 443)) \<and>
   parse_request [0x05, 0x01, 0x00, 0x03, 0x02, 0x61, 0x62, 0x01] = Inl StructError"
  using domain_request_length_prefix
    [of "[0x05, 0x01, 0x00, 0x03, 0x02, 0x61, 0x62, 0x01, 0xBB]" "0x02" "[0x61, 0x62, 0x01, 0xBB]"]
    domain_request_length_prefix
    [of "[0x05, 0x01, 0x00, 0x03, 0x02, 0x61, 0x62, 0x01]" "0x02" "[0x61, 0x62, 0x01]"]
  by (simp add: py_slice_def)

text \<open>
  The claim as the specification states it fails: a frame that declares a one-byte name
  and carries the two-byte name "ab" before the port 80 disagrees with the declared
  boundaries by one byte, and it is accepted, as the name "a" with port 0x6200.
\<close>

theorem domain_frame_off_by_one_counterexample:
  "parse_request [0x05, 0x01, 0x00, 0x03, 0x01, 0x61, 0x62, 0x00, 0x50]
     = Inr (Some (Name [0x61], 25088))"
  by (simp add: parse_request_def proto_simps)

section \<open>Fragments of a frame\<close>






section \<open>The ceiling of the accept loop\<close>

lemma under_ceiling_step: "under_ceiling s \<Longrightarrow> under_ceiling (main_step e s)"
  by (cases e) (auto simp: under_ceiling_def activeCount_def split: accept_res.splits)

lemma under_ceiling_run: "under_ceiling s \<Longrightarrow> under_ceiling (main_run evs s)"
  unfolding main_run_def by (induction evs arbitrary: s) (auto simp: under_ceiling_step)

lemma under_ceiling_start: "under_ceiling (main_start k)"
  by (simp add: under_ceiling_def main_start_def)

lemma dispatch_only_below:
  assumes "under_ceiling s" "units s < units (main_step e s)"
  shows "e = MainAccept Accepted \<and> place s = AtAccept \<and> units s < MAX_THREADS"
  using assms by (cases e) (auto simp: under_ceiling_def split: accept_res.splits if_splits)

lemma full_pauses:
  assumes "MAX_THREADS \<le> units s" "place s = AtTest"
  shows "main_step (MainTest False) s = s"
  using assms by (simp add: activeCount_def)

lemma main_run_append: "main_run (xs @ ys) s = main_run ys (main_run xs s)"
  by (simp add: main_run_def)

lemma concat_replicate_Suc: "concat (replicate (Suc n) xs) = concat (replicate n xs) @ xs"
  by (induction n) auto

lemma fill_units:
  "n \<le> MAX_THREADS \<Longrightarrow>
   main_run (concat (replicate n [MainTest False, MainAccept Accepted])) (main_start 0)
     = \<lparr>units = n, others = 0, place = AtTest\<rparr>"
proof (induction n)
  case 0
  then show ?case by (simp add: main_run_def main_start_def)
next
  case (Suc n)
  then have ih: "main_run (concat (replicate n [MainTest False, MainAccept Accepted]))
      (main_start 0) = \<lparr>units = n, others = 0, place = AtTest\<rparr>" by simp
  have "main_run [MainTest False, MainAccept Accepted] \<lparr>units = n, others = 0, place = AtTest\<rparr>
        = \<lparr>units = Suc n, others = 0, place = AtTest\<rparr>"
    using Suc.prems by (simp add: main_run_def activeCount_def)
  then show ?case
    unfolding concat_replicate_Suc main_run_append ih .
qed

section \<open>Claims about truncated and split frames\<close>

text \<open>
  Claim C9, with the clean failures as the code has them. A handshake packet that is
  the single byte 0x05 raises IndexError, which nothing catches before it leaves the
  function run by the thread. An IPv4 CONNECT frame with fewer than 10 bytes raises
  OSError (fewer than 8 bytes) or struct.error, and a domain-name frame with fewer than
  two bytes after the declared name raises struct.error; either leaves \<open>request\<close> as an
  exception. Clean failures are: for the handshake, a packet whose first byte is not
  0x05 (the empty packet among them) and a packet whose method count differs from the
  number of bytes after offset 2; for the request, a version, command or reserved-byte
  mismatch and an address type other than IPv4 and domain name, which includes every
  frame shorter than 4 bytes.
\<close>

theorem decoders_raise_on_truncated_frames:
  "select_method [0x05] = Inl IndexError \<and>
   fst (connection (session [[0x05]])) = Some (Inl IndexError) \<and>
   (\<forall>rest. length rest < 6 \<longrightarrow>
      parse_request (0x05 # 0x01 # 0x00 # 0x01 # rest)
        = Inl (if length rest < 4 then OSError else StructError)) \<and>
   (\<forall>l rest. length rest < unat l + 2 \<longrightarrow>
      parse_request (0x05 # 0x01 # 0x00 # 0x03 # l # rest) = Inl StructError) \<and>
   (\<forall>w e. fst (request_client w) = Inl e \<longrightarrow> fst (request w) = Some (Inl e)) \<and>
   select_method [] = Inr M_NOTAVAILABLE \<and>
   (\<forall>p. py_slice 0 1 p \<noteq> VER \<longrightarrow> select_method p = Inr M_NOTAVAILABLE) \<and>
   (\<forall>p. 2 \<le> length p \<and> unat (p ! 1) \<noteq> length p - 2 \<longrightarrow>
      select_method p = Inr M_NOTAVAILABLE) \<and>
   (\<forall>s. py_slice 0 1 s \<noteq> VER \<or> py_slice 1 2 s \<noteq> CMD_CONNECT \<or> py_slice 2 3 s \<noteq> [0x00]
      \<longrightarrow> parse_request s = Inr None) \<and>
   (\<forall>s. py_slice 3 4 s \<noteq> ATYP_IPV4 \<and> py_slice 3 4 s \<noteq> ATYP_DOMAINNAME
      \<longrightarrow> parse_request s = Inr None)"
proof -
  have a: "select_method [0x05] = Inl IndexError"
    by (simp add: select_method_def proto_simps)
  have "fst (subnegotiation_client (session [[0x05]])) = Inl IndexError"
    by (simp add: subnegotiation_client_def select_method_def world_simps proto_simps)
  then have b: "fst (connection (session [[0x05]])) = Some (Inl IndexError)"
    by (rule subnegotiation_raises)
  have c: "\<forall>rest. length rest < 6 \<longrightarrow>
      parse_request (0x05 # 0x01 # 0x00 # 0x01 # rest)
        = Inl (if length rest < 4 then OSError else StructError)"
    by (simp add: parse_ipv4)
  have d: "\<forall>l rest. length rest < unat l + 2 \<longrightarrow>
      parse_request (0x05 # 0x01 # 0x00 # 0x03 # l # rest) = Inl StructError"
    by (simp add: parse_domain)
  have e: "\<forall>w e. fst (request_client w) = Inl e \<longrightarrow> fst (request w) = Some (Inl e)"
    using request_raises by blast
  have f: "select_method [] = Inr M_NOTAVAILABLE"
    by (simp add: select_method_def proto_simps)
  have g: "\<forall>p. py_slice 0 1 p \<noteq> VER \<longrightarrow> select_method p = Inr M_NOTAVAILABLE"
    using select_method_version_mismatch by blast
  have h: "\<forall>p. 2 \<le> length p \<and> unat (p ! 1) \<noteq> length p - 2 \<longrightarrow>
      select_method p = Inr M_NOTAVAILABLE"
    using select_method_count_mismatch by blast
  have i: "\<forall>s. py_slice 0 1 s \<noteq> VER \<or> py_slice 1 2 s \<noteq> CMD_CONNECT \<or> py_slice 2 3 s \<noteq> [0x00]
      \<longrightarrow> parse_request s = Inr None"
    using parse_header_mismatch by blast
  have j: "\<forall>s. py_slice 3 4 s \<noteq> ATYP_IPV4 \<and> py_slice 3 4 s \<noteq> ATYP_DOMAINNAME
      \<longrightarrow> parse_request s = Inr None"
    using parse_atyp_other by blast
  show ?thesis using a b c d e f g h i j by blast
qed

theorem decoders_raise_on_truncated_frames_witness:
  "parse_request [0x05, 0x01, 0x00, 0x01, 127, 0, 0] = Inl OSError \<and>
   parse_request [0x05, 0x01, 0x00, 0x01, 127, 0, 0, 1, 0] = Inl StructError \<and>
   parse_request [0x05, 0x01, 0x00, 0x03, 0x02, 0x61, 0x62, 0x01] = Inl StructError \<and>
   fst (request (session [[0x05, 0x01, 0x00, 0x01, 127]])) = Some (Inl OSError) \<and>
   select_method [0x04, 0x01, 0x00] = Inr M_NOTAVAILABLE \<and>
   select_method [0x05, 0x03, 0x00] = Inr M_NOTAVAILABLE \<and>
   parse_request [0x05, 0x03, 0x00, 0x01, 127, 0, 0, 1, 0, 80] = Inr None \<and>
   parse_request [0x05, 0x01, 0x00, 0x04] = Inr None"
proof -
  note t = decoders_raise_on_truncated_frames
  have a: "parse_request [0x05, 0x01, 0x00, 0x01, 127, 0, 0] = Inl OSError"
    using t by simp
  have b: "parse_request [0x05, 0x01, 0x00, 0x01, 127, 0, 0, 1, 0] = Inl StructError"
    using t by simp
  have c: "parse_request [0x05, 0x01, 0x00, 0x03, 0x02, 0x61, 0x62, 0x01] = Inl StructError"
    using t by simp
  have "fst (request_client (session [[0x05, 0x01, 0x00, 0x01, 127]])) = Inl OSError"
    by (simp add: request_client_def parse_request_def world_simps proto_simps)
  then have d: "fst (request (session [[0x05, 0x01, 0x00, 0x01, 127]])) = Some (Inl OSError)"
    using t by blast
  have "py_slice 0 1 [0x04, 0x01, 0x00 :: byte] \<noteq> VER" by (simp add: proto_simps)
  then have e: "select_method [0x04, 0x01, 0x00] = Inr M_NOTAVAILABLE" using t by blast
  have "2 \<le> length [0x05, 0x03, 0x00 :: byte] \<and>
        unat ([0x05, 0x03, 0x00 :: byte] ! 1) \<noteq> length [0x05, 0x03, 0x00 :: byte] - 2" by simp
  then have f: "select_method [0x05, 0x03, 0x00] = Inr M_NOTAVAILABLE" using t by blast
  have "py_slice 1 2 [0x05, 0x03, 0x00, 0x01, 127, 0, 0, 1, 0, 80 :: byte] \<noteq> CMD_CONNECT"
    by (simp add: proto_simps)
  then have g: "parse_request [0x05, 0x03, 0x00, 0x01, 127, 0, 0, 1, 0, 80] = Inr None"
    using t by blast
  have "py_slice 3 4 [0x05, 0x01, 0x00, 0x04 :: byte] \<noteq> ATYP_IPV4 \<and>
        py_slice 3 4 [0x05, 0x01, 0x00, 0x04 :: byte] \<noteq> ATYP_DOMAINNAME"
    by (simp add: proto_simps)
  then have h: "parse_request [0x05, 0x01, 0x00, 0x04] = Inr None" using t by blast
  show ?thesis using a b c d e f g h by simp
qed

text \<open>
  The last part of the claim as stated fails: the handshake packet 05 02 00 declares two
  methods and carries one; it is neither empty nor a version mismatch, and it is reported
  as a clean failure. So is the request frame 05 01 00, cut before the address type,
  whose version and command match.
\<close>

theorem clean_failure_on_truncated_handshake_counterexample:
  "select_method [0x05, 0x02, 0x00] = Inr M_NOTAVAILABLE \<and>
   [0x05, 0x02, 0x00 :: byte] \<noteq> [] \<and> py_slice 0 1 [0x05, 0x02, 0x00] = VER \<and>
   parse_request [0x05, 0x01, 0x00] = Inr None"
  by (simp add: select_method_def parse_request_def proto_simps)



section \<open>Claims about the outbound socket, the relay and the accept loop\<close>

lemma connect_bind_permission:
  assumes "create_ok w" "OUTGOING_INTERFACE w \<noteq> []" "bind_r w = BindPerm"
  shows "exit_status (snd (connect_to_dst a p w)) \<and>
         (\<forall>e. fst (connect_to_dst a p w) = Inl e \<longrightarrow> e = TypeError \<and> nul_in_host a)"
  using assms
  by (auto simp: connect_to_dst_def Let_def log_def split: conn_res.splits if_splits)

lemma proxy_loop_exit_set:
  "exit_status w \<Longrightarrow> proxy_loop (x # sch) w = (Some Shutdown, w)"
  by (cases x) (auto simp: Let_def)

lemma main_test_exit_set:
  "place s = AtTest \<Longrightarrow> main_step (MainTest True) s = s\<lparr>place := Finished\<rparr>"
  by simp

text \<open>
  Claim C6, as the code has it. When a device is configured and binding the outbound
  socket to it fails with PermissionError, \<open>connect_to_dst\<close>, which runs inside a
  connection, catches the error and sets the exit status; the only exception that can
  still leave it is the TypeError of a host name with a NUL byte. With the exit status
  set, the relay loop of that connection stops at its first test without reading or
  forwarding anything, and the accept loop, which reads the same status at the top of
  each iteration, ends at its next test.
\<close>

theorem bind_permission_error_sets_exit_status:
  assumes "create_ok w" "OUTGOING_INTERFACE w \<noteq> []" "bind_r w = BindPerm"
  shows "exit_status (snd (connect_to_dst a p w)) \<and>
         (\<forall>e. fst (connect_to_dst a p w) = Inl e \<longrightarrow> e = TypeError \<and> nul_in_host a) \<and>
         proxy_loop (x # sch) (snd (connect_to_dst a p w))
           = (Some Shutdown, snd (connect_to_dst a p w)) \<and>
         (place s = AtTest \<longrightarrow>
            main_step (MainTest (exit_status (snd (connect_to_dst a p w)))) s
              = s\<lparr>place := Finished\<rparr>)"
proof -
  from connect_bind_permission [OF assms, of a p] have
    e: "exit_status (snd (connect_to_dst a p w))"
    and r: "\<forall>e. fst (connect_to_dst a p w) = Inl e \<longrightarrow> e = TypeError \<and> nul_in_host a"
    by blast+
  have l: "proxy_loop (x # sch) (snd (connect_to_dst a p w))
           = (Some Shutdown, snd (connect_to_dst a p w))"
    using e by (rule proxy_loop_exit_set)
  have m: "place s = AtTest \<longrightarrow>
            main_step (MainTest (exit_status (snd (connect_to_dst a p w)))) s
              = s\<lparr>place := Finished\<rparr>"
    using e main_test_exit_set by simp
  show ?thesis using e r l m by blast
qed

theorem bind_permission_error_sets_exit_status_witness:
  "exit_status (snd (connect_to_dst (Dotted [127, 0, 0, 1]) 80
     ((session [])\<lparr>OUTGOING_INTERFACE := ''eth0'', bind_r := BindPerm\<rparr>))) \<and>
   fst (proxy_loop [(False, Ready [Client])]
     (snd (connect_to_dst (Dotted [127, 0, 0, 1]) 80
       ((session [])\<lparr>OUTGOING_INTERFACE := ''eth0'', bind_r := BindPerm\<rparr>)))) = Some Shutdown \<and>
   place (main_step (MainTest (exit_status (snd (connect_to_dst (Dotted [127, 0, 0, 1]) 80
       ((session [])\<lparr>OUTGOING_INTERFACE := ''eth0'', bind_r := BindPerm\<rparr>)))))
     (main_start 1)) = Finished"
proof -
  define w where "w = (session [])\<lparr>OUTGOING_INTERFACE := ''eth0'', bind_r := BindPerm\<rparr>"
  have h: "create_ok w" "OUTGOING_INTERFACE w \<noteq> []" "bind_r w = BindPerm"
    unfolding w_def by (simp_all add: session_def)
  have p: "place (main_start 1) = AtTest" by (simp add: main_start_def)
  from bind_permission_error_sets_exit_status
    [OF h, of "Dotted [127, 0, 0, 1]" 80 "(False, Ready [Client])" "[]" "main_start 1"] p
  have "exit_status (snd (connect_to_dst (Dotted [127, 0, 0, 1]) 80 w)) \<and>
        fst (proxy_loop [(False, Ready [Client])]
          (snd (connect_to_dst (Dotted [127, 0, 0, 1]) 80 w))) = Some Shutdown \<and>
        place (main_step (MainTest (exit_status (snd (connect_to_dst (Dotted [127, 0, 0, 1]) 80 w))))
          (main_start 1)) = Finished"
    by simp
  then show ?thesis unfolding w_def .
qed

text \<open>
  The claim as the specification states it fails: the failure is met while serving a
  connection, no exception ends the process there, and the outbound connect is made on
  the unbound socket.
\<close>

theorem bind_permission_error_connect_proceeds_counterexample:
  "connect_to_dst (Dotted [127, 0, 0, 1]) 80
     ((session [])\<lparr>OUTGOING_INTERFACE := ''eth0'', bind_r := BindPerm\<rparr>)
   = (Inr (Some ([10, 0, 0, 2], 40000)),
      (session [])\<lparr>OUTGOING_INTERFACE := ''eth0'', bind_r := BindPerm, exit_status := True,
         trace := [Connect (Dotted [127, 0, 0, 1]) 80 True]\<rparr>)"
  by (simp add: connect_to_dst_def world_simps Let_def)

text \<open>
  Claim C7 at a failing input. The relay runs; the client sends the chunk 01 02 03, of
  which the destination socket takes two bytes, then the chunk 04, then closes. The
  loop hands each chunk to \<open>send\<close> once and does nothing with the count returned: the
  byte 03 is never written, the destination is sent 01 02 04 where 01 02 03 04 was read.
  The zero-length read that follows ends the loop.
\<close>

theorem partial_send_drops_bytes:
  "proxy_loop [(False, Ready [Client]), (False, Ready [Client]), (False, Ready [Client])]
     ((session [[0x01, 0x02, 0x03], [0x04]])\<lparr>dout := [SendPart 2]\<rparr>)
   = (Some PeerClosed,
      (session [])\<lparr>trace :=
        [Recv Client (Data [0x01, 0x02, 0x03]), Send Dst [0x01, 0x02, 0x03], Taken Dst 2,
         Recv Client (Data [0x04]), Send Dst [0x04], Taken Dst 1,
         Recv Client (Data [])]\<rparr>) \<and>
   taken Dst
     [Recv Client (Data [0x01, 0x02, 0x03]), Send Dst [0x01, 0x02, 0x03], Taken Dst 2,
      Recv Client (Data [0x04]), Send Dst [0x04], Taken Dst 1,
      Recv Client (Data [])] = [0x01, 0x02, 0x04]"
  by (simp add: world_simps other_def)

text \<open>
  Claim C8. In every state the accept loop can reach, under every interleaving with
  ending connection threads and changes in the number of other threads, the number of
  connection threads is at most \<open>MAX_THREADS\<close>; a step adds a connection thread only if
  it is the dispatch of an accepted socket and the number was below \<open>MAX_THREADS\<close>; so
  while the number is at the maximum no step adds one. The test of the loop is
  \<open>activeCount() > MAX_THREADS\<close>, and the count includes the main thread.
\<close>

theorem active_units_never_exceed_ceiling:
  "units (main_run evs (main_start k)) \<le> MAX_THREADS \<and>
   (\<forall>e. units (main_run evs (main_start k)) < units (main_step e (main_run evs (main_start k)))
        \<longrightarrow> e = MainAccept Accepted \<and> units (main_run evs (main_start k)) < MAX_THREADS) \<and>
   (MAX_THREADS \<le> units (main_run evs (main_start k)) \<longrightarrow>
      (\<forall>e. units (main_step e (main_run evs (main_start k)))
            \<le> units (main_run evs (main_start k))))"
proof -
  let ?s = "main_run evs (main_start k)"
  have u: "under_ceiling ?s" by (intro under_ceiling_run under_ceiling_start)
  have a: "units ?s \<le> MAX_THREADS" using u by (simp add: under_ceiling_def)
  have b: "\<forall>e. units ?s < units (main_step e ?s) \<longrightarrow> e = MainAccept Accepted \<and> units ?s < MAX_THREADS"
    using dispatch_only_below [OF u] by blast
  have c: "MAX_THREADS \<le> units ?s \<longrightarrow> (\<forall>e. units (main_step e ?s) \<le> units ?s)"
    using b by (meson not_le)
  show ?thesis using a b c by blast
qed

theorem active_units_never_exceed_ceiling_witness:
  "units (main_run (concat (replicate 200 [MainTest False, MainAccept Accepted])) (main_start 0))
     = 200 \<and>
   units (main_step (MainAccept Accepted)
     (main_run (concat (replicate 200 [MainTest False, MainAccept Accepted])) (main_start 0)))
     \<le> 200 \<and>
   units (main_run [MainTest False] (main_start 1)) < 200"
proof -
  let ?full = "main_run (concat (replicate 200 [MainTest False, MainAccept Accepted])) (main_start 0)"
  let ?one = "main_run [MainTest False] (main_start 1)"
  have f: "?full = \<lparr>units = 200, others = 0, place = AtTest\<rparr>"
    by (rule fill_units) (simp add: MAX_THREADS_def)
  then have u: "units ?full = 200" by simp
  have m: "MAX_THREADS \<le> units ?full" unfolding u by (simp add: MAX_THREADS_def)
  have "MAX_THREADS \<le> units ?full \<longrightarrow> (\<forall>e. units (main_step e ?full) \<le> units ?full)"
    using active_units_never_exceed_ceiling
      [of "concat (replicate 200 [MainTest False, MainAccept Accepted])" 0] by blast
  with m have "units (main_step (MainAccept Accepted) ?full) \<le> units ?full" by blast
  then have a: "units (main_step (MainAccept Accepted) ?full) \<le> 200" unfolding u .
  have o: "?one = \<lparr>units = 0, others = 1, place = AtAccept\<rparr>"
    by (simp add: main_run_def main_start_def activeCount_def MAX_THREADS_def)
  have lt: "units ?one < units (main_step (MainAccept Accepted) ?one)"
    unfolding o by simp
  have "units ?one < units (main_step (MainAccept Accepted) ?one) \<longrightarrow> units ?one < MAX_THREADS"
    using active_units_never_exceed_ceiling [of "[MainTest False]" 1] by blast
  with lt have "units ?one < MAX_THREADS" by blast
  then have b: "units ?one < 200" by (simp add: MAX_THREADS_def)
  show ?thesis using u a b by blast
qed

end
